theory Spec2Isabelle
  imports Complex_Main
begin

section \<open>The e-commerce data generator (data_generator.py)\<close>

text \<open>
  The generator draws from numpy's process-global random state and reads the wall
  clock. Both are explicit state here: every function takes the world and returns the
  new one. A Python exception is a value \<open>Inl e\<close>. A DataFrame is the list of its rows.
  Python floats are idealised as exact reals; the structural theorems below never
  unfold the arithmetic.
\<close>

subsection \<open>Errors\<close>

datatype py_error = ValueError | IndexError

subsection \<open>numpy's global random state\<close>

text \<open>
  numpy is not part of the repository. Its generator is taken as a stream of raw
  words with a read position, one word for each variate that is read; \<open>calls\<close> records the numpy calls made
  since seeding, in order: population size, probabilities and number of samples for
  \<open>choice\<close>, bounds and number of samples for \<open>uniform\<close>, scale for \<open>exponential\<close>.
\<close>

datatype rng_call =
    ChoiceCall nat "real list option" nat
  | UniformCall real real nat
  | ExponentialCall real

record rng =
  bits :: "nat \<Rightarrow> nat"
  pos :: nat
  calls :: "rng_call list"

definition seed :: "(nat \<Rightarrow> nat \<Rightarrow> nat) \<Rightarrow> nat \<Rightarrow> rng" where
  "seed mt s = \<lparr>bits = mt s, pos = 0, calls = []\<rparr>"

definition logged :: "rng_call \<Rightarrow> rng \<Rightarrow> rng" where
  "logged c g = g\<lparr>calls := calls g @ [c]\<rparr>"

text \<open>\<open>random_sample\<close>: a 53-bit integer over \<open>2^53\<close>, so a value in \<open>[0, 1)\<close>.\<close>

definition random_sample :: "rng \<Rightarrow> real \<times> rng" where
  "random_sample g =
     (real (bits g (pos g) mod 2 ^ 53) / 2 ^ 53, g\<lparr>pos := pos g + 1\<rparr>)"

text \<open>
  \<open>randint(0, n)\<close>: over a range of one value numpy returns that value and reads
  nothing; otherwise an index below \<open>n\<close> is taken from the next word.
\<close>

definition randint :: "nat \<Rightarrow> rng \<Rightarrow> nat \<times> rng" where
  "randint n g =
     (if n = 1 then (0, g) else (bits g (pos g) mod n, g\<lparr>pos := pos g + 1\<rparr>))"

fun draws :: "(rng \<Rightarrow> 'a \<times> rng) \<Rightarrow> nat \<Rightarrow> rng \<Rightarrow> 'a list \<times> rng" where
  "draws f 0 g = ([], g)"
| "draws f (Suc n) g =
     (case f g of (x, g1) \<Rightarrow> (case draws f n g1 of (xs, g2) \<Rightarrow> (x # xs, g2)))"

fun cumsum_from :: "real \<Rightarrow> real list \<Rightarrow> real list" where
  "cumsum_from acc [] = []"
| "cumsum_from acc (x # xs) = (acc + x) # cumsum_from (acc + x) xs"

definition cumsum :: "real list \<Rightarrow> real list" where
  "cumsum p = cumsum_from 0 p"

text \<open>\<open>cdf.searchsorted(u, side='right')\<close> on an ascending array.\<close>

definition searchsorted_right :: "real list \<Rightarrow> real \<Rightarrow> nat" where
  "searchsorted_right cdf u = length (takeWhile (\<lambda>c. c \<le> u) cdf)"

definition choice_index :: "real list \<Rightarrow> real \<Rightarrow> nat" where
  "choice_index p u =
     (let cdf = cumsum p; cdf1 = map (\<lambda>c. c / last cdf) cdf
      in searchsorted_right cdf1 u)"

text \<open>
  The argument checks of \<open>choice\<close>, in numpy's order: an empty population with samples
  requested, then the probabilities (same size, none negative, summing to one).
\<close>

definition choice_checks :: "'a list \<Rightarrow> bool \<Rightarrow> real list option \<Rightarrow> bool" where
  "choice_checks a wants_samples p_opt =
     (\<not> (a = [] \<and> wants_samples) \<and>
      (case p_opt of
         None \<Rightarrow> True
       | Some p \<Rightarrow> length p = length a \<and> list_all (\<lambda>x. 0 \<le> x) p \<and> sum_list p = 1))"

definition choice_one :: "'a list \<Rightarrow> real list option \<Rightarrow> rng \<Rightarrow> 'a \<times> rng" where
  "choice_one a p_opt g =
     (case p_opt of
        Some p \<Rightarrow> (case random_sample g of (u, g1) \<Rightarrow> (a ! choice_index p u, g1))
      | None \<Rightarrow> (case randint (length a) g of (k, g1) \<Rightarrow> (a ! k, g1)))"

text \<open>\<open>np.random.choice(a, p=p)\<close>: one sample, returned as a scalar.\<close>

definition choice :: "'a list \<Rightarrow> real list option \<Rightarrow> rng \<Rightarrow> py_error + ('a \<times> rng)" where
  "choice a p_opt g =
     (if \<not> choice_checks a True p_opt then Inl ValueError
      else case choice_one a p_opt g of
             (x, g1) \<Rightarrow> Inr (x, logged (ChoiceCall (length a) p_opt 1) g1))"

text \<open>\<open>np.random.choice(a, n, p=p)\<close>: an array of \<open>n\<close> samples, filled in order.\<close>

definition choice_n ::
  "'a list \<Rightarrow> int \<Rightarrow> real list option \<Rightarrow> rng \<Rightarrow> py_error + ('a list \<times> rng)" where
  "choice_n a n p_opt g =
     (if \<not> choice_checks a (n \<noteq> 0) p_opt then Inl ValueError
      else if n < 0 then Inl ValueError
      else case draws (choice_one a p_opt) (nat n) g of
             (xs, g1) \<Rightarrow> Inr (xs, logged (ChoiceCall (length a) p_opt (nat n)) g1))"

text \<open>\<open>np.random.uniform(low, high, n)\<close>.\<close>

definition uniform_one :: "real \<Rightarrow> real \<Rightarrow> rng \<Rightarrow> real \<times> rng" where
  "uniform_one low high g =
     (case random_sample g of (u, g1) \<Rightarrow> (low + (high - low) * u, g1))"

definition uniform_n :: "real \<Rightarrow> real \<Rightarrow> int \<Rightarrow> rng \<Rightarrow> py_error + (real list \<times> rng)" where
  "uniform_n low high n g =
     (if n < 0 then Inl ValueError
      else case draws (uniform_one low high) (nat n) g of
             (xs, g1) \<Rightarrow> Inr (xs, logged (UniformCall low high (nat n)) g1))"

text \<open>\<open>np.random.exponential(scale)\<close>: \<open>scale * (- log (1 - u))\<close>.\<close>

definition exponential :: "real \<Rightarrow> rng \<Rightarrow> py_error + (real \<times> rng)" where
  "exponential scale g =
     (if scale < 0 then Inl ValueError
      else case random_sample g of
             (u, g1) \<Rightarrow> Inr (scale * (- ln (1 - u)), logged (ExponentialCall scale) g1))"

subsection \<open>The wall clock, rounding, time spans\<close>

text \<open>
  \<open>datetime.now()\<close> reads the clock: the readings are a stream of microsecond counts
  and every call takes the next one.
\<close>

record clock =
  readings :: "nat \<Rightarrow> int"
  ticks :: nat

definition datetime_now :: "clock \<Rightarrow> int \<times> clock" where
  "datetime_now k = (readings k (ticks k), k\<lparr>ticks := ticks k + 1\<rparr>)"

record world =
  np_random :: rng
  wall_clock :: clock

text \<open>Rounding to the nearest integer, ties to even, as Python rounds.\<close>

definition round_half_even :: "real \<Rightarrow> int" where
  "round_half_even x =
     (let f = \<lfloor>x\<rfloor>; d = x - of_int f
      in if d < 1 / 2 then f
         else if 1 / 2 < d then f + 1
         else if even f then f else f + 1)"

text \<open>\<open>round(x, 2)\<close>.\<close>

definition round2 :: "real \<Rightarrow> real" where
  "round2 x = of_int (round_half_even (x * 100)) / 100"

text \<open>\<open>timedelta(days=d)\<close> in microseconds.\<close>

definition timedelta_days :: "real \<Rightarrow> int" where
  "timedelta_days d = round_half_even (d * 86400000000)"

subsection \<open>The tables\<close>

datatype segment = Premium | Standard | Basic

record customer =
  customer_id :: int
  customer_segment :: segment
  region :: string
  registration_date :: int
  age_group :: string

record product =
  product_id :: int
  category :: string
  base_price :: real
  cost :: real
  profit_margin :: real

record transaction =
  transaction_id :: int
  t_customer_id :: int
  t_product_id :: int
  quantity :: int
  unit_price :: real
  total_amount :: real
  transaction_date :: int
  channel :: string

record generator =
  n_customers :: int
  n_products :: int
  n_transactions :: int

text \<open>
  \<open>__init__\<close> stores the three counts and seeds the global generator with 42; \<open>mt\<close>
  is numpy's map from a seed to its stream. It also seeds the standard library's
  generator, which nothing in the file reads.
\<close>

definition EcommerceDataGenerator ::
  "(nat \<Rightarrow> nat \<Rightarrow> nat) \<Rightarrow> int \<Rightarrow> int \<Rightarrow> int \<Rightarrow> world \<Rightarrow> generator \<times> world" where
  "EcommerceDataGenerator mt nc np nt w =
     (\<lparr>n_customers = nc, n_products = np, n_transactions = nt\<rparr>,
      w\<lparr>np_random := seed mt 42\<rparr>)"

subsection \<open>generate_customers\<close>

definition segments :: "segment list" where
  "segments = [Premium, Standard, Basic]"

definition regions :: "string list" where
  "regions = [''North'', ''South'', ''East'', ''West'', ''Central'']"

definition age_groups :: "string list" where
  "age_groups = [''18-25'', ''26-35'', ''36-45'', ''46-55'', ''55+'']"

text \<open>
  \<open>pd.date_range(start, end, periods=n)\<close>: \<open>n\<close> instants evenly spaced from start to
  end, in nanoseconds since the epoch.
\<close>

definition date_range :: "int \<Rightarrow> int \<Rightarrow> int \<Rightarrow> py_error + int list" where
  "date_range start stop n =
     (if n < 0 then Inl ValueError
      else if n = 1 then Inr [start]
      else Inr (map (\<lambda>i. start + (int i * (stop - start)) div (n - 1)) [0..<nat n]))"

definition date_2022_01_01 :: int where
  "date_2022_01_01 = 18993 * 86400000000000"

definition date_2024_12_31 :: int where
  "date_2024_12_31 = 20088 * 86400000000000"

definition customer_rows ::
  "int list \<Rightarrow> segment list \<Rightarrow> string list \<Rightarrow> int list \<Rightarrow> string list
     \<Rightarrow> py_error + customer list" where
  "customer_rows ids segs regs dates ages =
     (if length segs = length ids \<and> length regs = length ids
         \<and> length dates = length ids \<and> length ages = length ids
      then Inr (map (\<lambda>i. \<lparr>customer_id = ids ! i, customer_segment = segs ! i,
                           region = regs ! i, registration_date = dates ! i,
                           age_group = ages ! i\<rparr>) [0..<length ids])
      else Inl ValueError)"

definition generate_customers :: "generator \<Rightarrow> world \<Rightarrow> py_error + (customer list \<times> world)" where
  "generate_customers self w =
     (let n = n_customers self; ids = [1..n] in
      case choice_n segments n (Some [0.2, 0.5, 0.3]) (np_random w) of
        Inl e \<Rightarrow> Inl e
      | Inr (segs, g1) \<Rightarrow>
      (case choice_n regions n None g1 of
        Inl e \<Rightarrow> Inl e
      | Inr (regs, g2) \<Rightarrow>
      (case date_range date_2022_01_01 date_2024_12_31 n of
        Inl e \<Rightarrow> Inl e
      | Inr dates \<Rightarrow>
      (case choice_n age_groups n (Some [0.15, 0.25, 0.25, 0.20, 0.15]) g2 of
        Inl e \<Rightarrow> Inl e
      | Inr (ages, g3) \<Rightarrow>
      (case customer_rows ids segs regs dates ages of
        Inl e \<Rightarrow> Inl e
      | Inr customers \<Rightarrow> Inr (customers, w\<lparr>np_random := g3\<rparr>))))))"

subsection \<open>generate_products\<close>

definition categories :: "string list" where
  "categories = [''Electronics'', ''Clothing'', ''Books'', ''Home'', ''Sports'', ''Beauty'']"

definition product_rows ::
  "int list \<Rightarrow> string list \<Rightarrow> real list \<Rightarrow> real list \<Rightarrow> py_error + product list" where
  "product_rows ids cats prices costs =
     (if length cats = length ids \<and> length prices = length ids
         \<and> length costs = length ids
      then Inr (map (\<lambda>i. \<lparr>product_id = ids ! i, category = cats ! i,
                           base_price = prices ! i, cost = costs ! i,
                           profit_margin = (prices ! i - costs ! i) / prices ! i\<rparr>)
                  [0..<length ids])
      else Inl ValueError)"

definition generate_products :: "generator \<Rightarrow> world \<Rightarrow> py_error + (product list \<times> world)" where
  "generate_products self w =
     (let n = n_products self; ids = [1..n] in
      case choice_n categories n None (np_random w) of
        Inl e \<Rightarrow> Inl e
      | Inr (cats, g1) \<Rightarrow>
      (case uniform_n 10 500 n g1 of
        Inl e \<Rightarrow> Inl e
      | Inr (prices, g2) \<Rightarrow>
      (case uniform_n 5 300 n g2 of
        Inl e \<Rightarrow> Inl e
      | Inr (costs, g3) \<Rightarrow>
      (case product_rows ids cats prices costs of
        Inl e \<Rightarrow> Inl e
      | Inr products \<Rightarrow> Inr (products, w\<lparr>np_random := g3\<rparr>)))))"

subsection \<open>generate_transactions\<close>

fun segment_weight :: "segment \<Rightarrow> real" where
  "segment_weight Premium = 3.0"
| "segment_weight Standard = 2.0"
| "segment_weight Basic = 1.0"

fun price_multiplier :: "segment \<Rightarrow> real" where
  "price_multiplier Premium = 1.1"
| "price_multiplier Standard = 1.0"
| "price_multiplier Basic = 0.9"

definition customer_weights :: "customer list \<Rightarrow> real list" where
  "customer_weights customers =
     (let ws = map (\<lambda>c. segment_weight (customer_segment c)) customers
      in map (\<lambda>x. x / sum_list ws) ws)"

text \<open>\<open>.iloc[0]\<close> of a filtered table: the first row, IndexError when there is none.\<close>

definition iloc0 :: "'a list \<Rightarrow> py_error + 'a" where
  "iloc0 rows = (case rows of [] \<Rightarrow> Inl IndexError | r # _ \<Rightarrow> Inr r)"

text \<open>One pass through the body of the loop, for index \<open>i\<close>.\<close>

definition transaction_step ::
  "customer list \<Rightarrow> product list \<Rightarrow> real list \<Rightarrow> int \<Rightarrow> world
     \<Rightarrow> py_error + (transaction \<times> world)" where
  "transaction_step customers products weights i w =
     (case choice (map customer_id customers) (Some weights) (np_random w) of
        Inl e \<Rightarrow> Inl e
      | Inr (cid, g1) \<Rightarrow>
      (case iloc0 (filter (\<lambda>c. customer_id c = cid) customers) of
        Inl e \<Rightarrow> Inl e
      | Inr c \<Rightarrow>
      (case choice (map product_id products) None g1 of
        Inl e \<Rightarrow> Inl e
      | Inr (pid, g2) \<Rightarrow>
      (case iloc0 (filter (\<lambda>p. product_id p = pid) products) of
        Inl e \<Rightarrow> Inl e
      | Inr p \<Rightarrow>
      (let price = base_price p * price_multiplier (customer_segment c) in
       case choice [1, 2, 3, 4, 5] (Some [0.5, 0.25, 0.15, 0.07, 0.03]) g2 of
        Inl e \<Rightarrow> Inl e
      | Inr (qty, g3) \<Rightarrow>
      (case exponential 30 g3 of
        Inl e \<Rightarrow> Inl e
      | Inr (days_back, g4) \<Rightarrow>
      (case datetime_now (wall_clock w) of
        (now, k1) \<Rightarrow>
      (let date = now - timedelta_days (min days_back 365) in
       case choice [''Online'', ''Store''] (Some [0.7, 0.3]) g4 of
        Inl e \<Rightarrow> Inl e
      | Inr (chan, g5) \<Rightarrow>
          Inr (\<lparr>transaction_id = i + 1, t_customer_id = cid, t_product_id = pid,
                quantity = qty, unit_price = round2 price,
                total_amount = round2 (of_int qty * price),
                transaction_date = date, channel = chan\<rparr>,
               \<lparr>np_random = g5, wall_clock = k1\<rparr>)))))))))"

text \<open>The numpy calls of one pass, in the order the body makes them.\<close>

definition step_calls :: "customer list \<Rightarrow> product list \<Rightarrow> rng_call list" where
  "step_calls customers products =
     [ChoiceCall (length customers) (Some (customer_weights customers)) 1,
      ChoiceCall (length products) None 1,
      ChoiceCall 5 (Some [0.5, 0.25, 0.15, 0.07, 0.03]) 1,
      ExponentialCall 30,
      ChoiceCall 2 (Some [0.7, 0.3]) 1]"

text \<open>
  \<open>for i in range(n_transactions)\<close>: \<open>n\<close> passes are left and \<open>i\<close> is the index of the
  next one; an exception in a pass ends the loop.
\<close>

fun transactions_loop ::
  "customer list \<Rightarrow> product list \<Rightarrow> real list \<Rightarrow> nat \<Rightarrow> int \<Rightarrow> world
     \<Rightarrow> py_error + (transaction list \<times> world)" where
  "transactions_loop customers products weights 0 i w = Inr ([], w)"
| "transactions_loop customers products weights (Suc n) i w =
     (case transaction_step customers products weights i w of
        Inl e \<Rightarrow> Inl e
      | Inr (t, w1) \<Rightarrow>
      (case transactions_loop customers products weights n (i + 1) w1 of
        Inl e \<Rightarrow> Inl e
      | Inr (ts, w2) \<Rightarrow> Inr (t # ts, w2)))"

definition generate_transactions ::
  "generator \<Rightarrow> customer list \<Rightarrow> product list \<Rightarrow> world
     \<Rightarrow> py_error + (transaction list \<times> world)" where
  "generate_transactions self customers products w =
     transactions_loop customers products (customer_weights customers)
       (nat (n_transactions self)) 0 w"

subsection \<open>generate_all_data\<close>

definition generate_all_data ::
  "generator \<Rightarrow> world
     \<Rightarrow> py_error + ((customer list \<times> product list \<times> transaction list) \<times> world)" where
  "generate_all_data self w =
     (case generate_customers self w of
        Inl e \<Rightarrow> Inl e
      | Inr (customers, w1) \<Rightarrow>
      (case generate_products self w1 of
        Inl e \<Rightarrow> Inl e
      | Inr (products, w2) \<Rightarrow>
      (case generate_transactions self customers products w2 of
        Inl e \<Rightarrow> Inl e
      | Inr (transactions, w3) \<Rightarrow> Inr ((customers, products, transactions), w3))))"

subsection \<open>A run of the program\<close>

text \<open>
  The script under \<open>__main__\<close>: construct the generator, generate, and keep the three
  tables.
\<close>

definition main_tables ::
  "(nat \<Rightarrow> nat \<Rightarrow> nat) \<Rightarrow> int \<Rightarrow> int \<Rightarrow> int \<Rightarrow> world
     \<Rightarrow> py_error + (customer list \<times> product list \<times> transaction list)" where
  "main_tables mt nc np nt w =
     (case EcommerceDataGenerator mt nc np nt w of
        (generator, w1) \<Rightarrow>
          (case generate_all_data generator w1 of
             Inl e \<Rightarrow> Inl e
           | Inr (tables, w2) \<Rightarrow> Inr tables))"

text \<open>A row with its date blanked, to compare rows apart from the date.\<close>

definition without_date :: "transaction \<Rightarrow> transaction" where
  "without_date t = t\<lparr>transaction_date := 0\<rparr>"

subsection \<open>Concrete inputs\<close>

text \<open>
  One Standard customer, two products, the first priced \<open>10 + 1/256\<close>, one
  transaction; the second word of the stream is even, so the first product is drawn,
  and the third variate is the largest possible, so the quantity drawn is 5.
\<close>

definition ex_customers :: "customer list" where
  "ex_customers = [\<lparr>customer_id = 1, customer_segment = Standard, region = ''North'',
      registration_date = 0, age_group = ''26-35''\<rparr>]"

definition ex_products :: "product list" where
  "ex_products = [\<lparr>product_id = 1, category = ''Books'', base_price = 2561 / 256,
      cost = 5, profit_margin = 1281 / 2561\<rparr>,
                  \<lparr>product_id = 2, category = ''Home'', base_price = 20,
      cost = 8, profit_margin = 3 / 5\<rparr>]"

definition ex_bits :: "nat \<Rightarrow> nat" where
  "ex_bits n = (if n = 2 then 2 ^ 53 - 1 else 0)"

definition ex_world :: world where
  "ex_world = \<lparr>np_random = \<lparr>bits = ex_bits, pos = 0, calls = []\<rparr>,
               wall_clock = \<lparr>readings = (\<lambda>n. 1700000000000000 + int n), ticks = 0\<rparr>\<rparr>"

definition ex_generator :: generator where
  "ex_generator = \<lparr>n_customers = 1, n_products = 1, n_transactions = 1\<rparr>"

definition ex_transactions :: "transaction list" where
  "ex_transactions = [\<lparr>transaction_id = 1, t_customer_id = 1, t_product_id = 1, quantity = 5,
            unit_price = 10, total_amount = 50.02, transaction_date = 1700000000000000,
            channel = ''Online''\<rparr>]"

definition ex_world_after :: world where
  "ex_world_after =
     \<lparr>np_random = \<lparr>bits = ex_bits, pos = 5, calls = step_calls ex_customers ex_products\<rparr>,
      wall_clock = \<lparr>readings = (\<lambda>n. 1700000000000000 + int n), ticks = 1\<rparr>\<rparr>"

text \<open>Generators with all counts zero, and with all counts negative.\<close>

definition zero_generator :: generator where
  "zero_generator = \<lparr>n_customers = 0, n_products = 0, n_transactions = 0\<rparr>"

definition negative_generator :: generator where
  "negative_generator = \<lparr>n_customers = - 1, n_products = - 1, n_transactions = - 1\<rparr>"

text \<open>
  A seeding that yields the all-zero stream, and two worlds that differ only in the
  clock: the second is read one minute later.
\<close>

definition mt_zero :: "nat \<Rightarrow> nat \<Rightarrow> nat" where
  "mt_zero s n = 0"

definition world_early :: world where
  "world_early = \<lparr>np_random = seed mt_zero 7,
                  wall_clock = \<lparr>readings = (\<lambda>n. 1700000000000000 + int n), ticks = 0\<rparr>\<rparr>"

definition world_late :: world where
  "world_late = \<lparr>np_random = seed mt_zero 7,
                 wall_clock = \<lparr>readings = (\<lambda>n. 1700000060000000 + int n), ticks = 0\<rparr>\<rparr>"

text \<open>The tables the all-zero stream produces for one customer, product and transaction.\<close>

definition zero_customers :: "customer list" where
  "zero_customers = [\<lparr>customer_id = 1, customer_segment = Premium, region = ''North'',
      registration_date = date_2022_01_01, age_group = ''18-25''\<rparr>]"

definition zero_products :: "product list" where
  "zero_products = [\<lparr>product_id = 1, category = ''Electronics'', base_price = 10, cost = 5,
      profit_margin = 1 / 2\<rparr>]"

definition zero_transaction :: "int \<Rightarrow> transaction" where
  "zero_transaction date = \<lparr>transaction_id = 1, t_customer_id = 1, t_product_id = 1,
      quantity = 1, unit_price = 11, total_amount = 11, transaction_date = date,
      channel = ''Online''\<rparr>"

text \<open>A stream whose third variate is one half, for a product whose cost exceeds its price.\<close>

definition half_bits :: "nat \<Rightarrow> nat" where
  "half_bits n = (if n = 2 then 2 ^ 52 else 0)"

definition half_world :: world where
  "half_world = \<lparr>np_random = \<lparr>bits = half_bits, pos = 0, calls = []\<rparr>,
                 wall_clock = \<lparr>readings = (\<lambda>n. 1700000000000000 + int n), ticks = 0\<rparr>\<rparr>"

section \<open>Properties of the random draws\<close>

lemma random_sample_range:
  "0 \<le> fst (random_sample g) \<and> fst (random_sample g) < 1"
proof -
  have "bits g (pos g) mod 2 ^ 53 < (2::nat) ^ 53" by simp
  then have "real (bits g (pos g) mod 2 ^ 53) < real ((2::nat) ^ 53)"
    by (rule iffD2 [OF of_nat_less_iff])
  then show ?thesis by (simp add: random_sample_def)
qed

lemma random_sample_state: "snd (random_sample g) = g\<lparr>pos := pos g + 1\<rparr>"
  by (simp add: random_sample_def)

lemma length_cumsum_from: "length (cumsum_from acc p) = length p"
  by (induction p arbitrary: acc) auto

lemma last_cumsum_from: "p \<noteq> [] \<Longrightarrow> last (cumsum_from acc p) = acc + sum_list p"
proof (induction p arbitrary: acc)
  case Nil then show ?case by simp
next
  case (Cons x xs)
  show ?case
  proof (cases xs)
    case Nil then show ?thesis by simp
  next
    case (Cons y ys)
    then have "cumsum_from (acc + x) xs \<noteq> []" by simp
    with Cons.IH [of "acc + x"] Cons show ?thesis by simp
  qed
qed

lemma takeWhile_stops: "xs \<noteq> [] \<Longrightarrow> \<not> P (last xs) \<Longrightarrow> length (takeWhile P xs) < length xs"
  by (induction xs) (auto split: if_splits)

lemma choice_index_less:
  assumes "p \<noteq> []" "sum_list p = 1" "u < 1"
  shows "choice_index p u < length p"
proof -
  let ?cdf = "cumsum p"
  have ne: "?cdf \<noteq> []" using assms(1) length_cumsum_from [of 0 p] by (auto simp: cumsum_def)
  have l: "last ?cdf = 1" using last_cumsum_from [OF assms(1), of 0] assms(2) by (simp add: cumsum_def)
  have "length (takeWhile (\<lambda>c. c \<le> u) ?cdf) < length ?cdf"
    using takeWhile_stops [OF ne, of "\<lambda>c. c \<le> u"] l assms(3) by simp
  moreover have "length ?cdf = length p" by (simp add: cumsum_def length_cumsum_from)
  ultimately show ?thesis
    by (simp add: choice_index_def searchsorted_right_def l Let_def)
qed

lemma choice_p_eq:
  assumes "a \<noteq> []" "length p = length a" "list_all (\<lambda>x. 0 \<le> x) p" "sum_list p = 1"
  shows "choice a (Some p) g =
     Inr (a ! choice_index p (fst (random_sample g)),
          logged (ChoiceCall (length a) (Some p) 1) (g\<lparr>pos := pos g + 1\<rparr>))"
  using assms by (simp add: choice_def choice_checks_def choice_one_def random_sample_def)

lemma choice_p_in:
  assumes "a \<noteq> []" "length p = length a" "sum_list p = 1"
  shows "a ! choice_index p (fst (random_sample g)) \<in> set a"
proof -
  have "p \<noteq> []" using assms by auto
  then have "choice_index p (fst (random_sample g)) < length a"
    using choice_index_less [of p] assms random_sample_range [of g] by simp
  then show ?thesis by simp
qed

lemma randint_less: "0 < n \<Longrightarrow> fst (randint n g) < n"
  by (simp add: randint_def)

lemma randint_state:
  "snd (randint n g) = g\<lparr>pos := pos g + (if n = 1 then 0 else 1)\<rparr>"
  by (simp add: randint_def)

lemma choice_u_eq:
  assumes "a \<noteq> []"
  shows "choice a None g =
     Inr (a ! fst (randint (length a) g),
          logged (ChoiceCall (length a) None 1) (snd (randint (length a) g)))"
  using assms by (simp add: choice_def choice_checks_def choice_one_def case_prod_unfold)

lemma choice_empty: "choice [] p_opt g = Inl ValueError"
  by (simp add: choice_def choice_checks_def)

lemma segment_weight_pos: "0 < segment_weight s"
  by (cases s) simp_all

lemma sum_list_pos_real: "xs \<noteq> [] \<Longrightarrow> (\<forall>x\<in>set xs. (0::real) < x) \<Longrightarrow> 0 < sum_list xs"
  by (induction xs) (auto intro: add_pos_nonneg sum_list_nonneg less_imp_le)

lemma sum_list_div: "sum_list (map (\<lambda>x. x / (c::real)) xs) = sum_list xs / c"
  by (induction xs) (auto simp: add_divide_distrib)

lemma customer_weights_valid:
  assumes "cs \<noteq> []"
  shows "length (customer_weights cs) = length cs"
    and "list_all (\<lambda>x. 0 \<le> x) (customer_weights cs)"
    and "sum_list (customer_weights cs) = 1"
proof -
  let ?ws = "map (\<lambda>c. segment_weight (customer_segment c)) cs"
  have pos: "0 < sum_list ?ws"
    using assms by (intro sum_list_pos_real) (auto simp: segment_weight_pos)
  show "length (customer_weights cs) = length cs" by (simp add: customer_weights_def Let_def)
  show "list_all (\<lambda>x. 0 \<le> x) (customer_weights cs)"
  proof -
    have "0 \<le> segment_weight (customer_segment c) / sum_list ?ws" for c
      using pos segment_weight_pos [of "customer_segment c"] by (intro divide_nonneg_pos) simp_all
    then show ?thesis unfolding customer_weights_def Let_def list_all_iff set_map by blast
  qed
  show "sum_list (customer_weights cs) = 1"
    using pos sum_list_div [of "sum_list ?ws" ?ws] by (simp add: customer_weights_def Let_def)
qed

lemma iloc0_filter_find:
  "iloc0 (filter P xs) = (case find P xs of None \<Rightarrow> Inl IndexError | Some x \<Rightarrow> Inr x)"
  by (induction xs) (auto simp: iloc0_def)

lemma find_key_in:
  "k \<in> set (map f xs) \<Longrightarrow> \<exists>x. find (\<lambda>y. f y = k) xs = Some x \<and> x \<in> set xs \<and> f x = k"
  by (induction xs) auto

lemma exponential_eq:
  "0 \<le> s \<Longrightarrow> exponential s g =
     Inr (s * (- ln (1 - fst (random_sample g))),
          logged (ExponentialCall s) (g\<lparr>pos := pos g + 1\<rparr>))"
  by (simp add: exponential_def random_sample_def)

lemma exponential_nonneg: "0 \<le> s \<Longrightarrow> 0 \<le> s * (- ln (1 - fst (random_sample g)))"
proof -
  assume s: "0 \<le> s"
  have "0 < 1 - fst (random_sample g)" "1 - fst (random_sample g) \<le> 1"
    using random_sample_range [of g] by auto
  then have "ln (1 - fst (random_sample g)) \<le> 0" by simp
  with s have "s * ln (1 - fst (random_sample g)) \<le> 0" by (rule mult_nonneg_nonpos)
  then show ?thesis by simp
qed

lemma round_half_even_nonneg: "0 \<le> x \<Longrightarrow> 0 \<le> round_half_even x"
  by (auto simp: round_half_even_def Let_def)

lemma round_half_even_le: "x \<le> of_int n \<Longrightarrow> round_half_even x \<le> n"
proof -
  assume a: "x \<le> of_int n"
  then have fl: "\<lfloor>x\<rfloor> \<le> n" by (simp add: floor_le_iff)
  show ?thesis
  proof (cases "\<lfloor>x\<rfloor> = n")
    case True
    then have "x - of_int \<lfloor>x\<rfloor> \<le> 0" using a by simp
    then show ?thesis using True by (simp add: round_half_even_def Let_def)
  next
    case False
    with fl have "\<lfloor>x\<rfloor> + 1 \<le> n" by simp
    with fl show ?thesis by (simp add: round_half_even_def Let_def)
  qed
qed

lemma timedelta_days_bounds:
  assumes "0 \<le> d"
  shows "0 \<le> timedelta_days (min d 365)"
    and "timedelta_days (min d 365) \<le> 365 * 86400000000"
proof -
  have "0 \<le> min d 365 * 86400000000" using assms by simp
  then show "0 \<le> timedelta_days (min d 365)"
    unfolding timedelta_days_def by (rule round_half_even_nonneg)
  have "min d 365 * 86400000000 \<le> of_int (365 * 86400000000)" by simp
  then show "timedelta_days (min d 365) \<le> 365 * 86400000000"
    unfolding timedelta_days_def by (rule round_half_even_le)
qed

lemma quantity_range:
  "1 \<le> [1, 2, 3, 4, 5 :: int] ! choice_index [0.5, 0.25, 0.15, 0.07, 0.03] (fst (random_sample g))
   \<and> [1, 2, 3, 4, 5 :: int] ! choice_index [0.5, 0.25, 0.15, 0.07, 0.03] (fst (random_sample g)) \<le> 5"
proof -
  have "[1, 2, 3, 4, 5 :: int] ! choice_index [0.5, 0.25, 0.15, 0.07, 0.03] (fst (random_sample g))
        \<in> set [1, 2, 3, 4, 5 :: int]"
    by (rule choice_p_in; simp)
  then show ?thesis by auto
qed

lemma transaction_step_ok:
  assumes "cs \<noteq> []" "ps \<noteq> []"
  shows "\<exists>t w'. transaction_step cs ps (customer_weights cs) i w = Inr (t, w')
     \<and> transaction_id t = i + 1
     \<and> (\<exists>c p. find (\<lambda>x. customer_id x = t_customer_id t) cs = Some c
            \<and> find (\<lambda>x. product_id x = t_product_id t) ps = Some p
            \<and> unit_price t = round2 (base_price p * price_multiplier (customer_segment c))
            \<and> total_amount t =
                round2 (of_int (quantity t) * (base_price p * price_multiplier (customer_segment c))))
     \<and> 1 \<le> quantity t \<and> quantity t \<le> 5
     \<and> transaction_date t \<le> readings (wall_clock w) (ticks (wall_clock w))
     \<and> readings (wall_clock w) (ticks (wall_clock w)) - transaction_date t \<le> 365 * 86400000000
     \<and> np_random w' = (np_random w)\<lparr>pos := pos (np_random w) + (if length ps = 1 then 4 else 5),
           calls := calls (np_random w) @ step_calls cs ps\<rparr>
     \<and> wall_clock w' = (wall_clock w)\<lparr>ticks := ticks (wall_clock w) + 1\<rparr>"
proof -
  let ?g = "np_random w"
  let ?wts = "customer_weights cs"
  let ?ids = "map customer_id cs"
  let ?cid = "?ids ! choice_index ?wts (fst (random_sample ?g))"
  let ?g1 = "logged (ChoiceCall (length ?ids) (Some ?wts) 1) (?g\<lparr>pos := pos ?g + 1\<rparr>)"
  note wv = customer_weights_valid [OF assms(1)]
  have c1: "choice ?ids (Some ?wts) ?g = Inr (?cid, ?g1)"
    by (rule choice_p_eq) (use assms(1) wv in simp_all)
  have "?cid \<in> set ?ids"
    by (rule choice_p_in) (use assms(1) wv in simp_all)
  then obtain c where c: "find (\<lambda>y. customer_id y = ?cid) cs = Some c"
    using find_key_in [of ?cid customer_id cs] by blast
  let ?pids = "map product_id ps"
  let ?pid = "?pids ! fst (randint (length ?pids) ?g1)"
  let ?g2 = "logged (ChoiceCall (length ?pids) None 1) (snd (randint (length ?pids) ?g1))"
  have c2: "choice ?pids None ?g1 = Inr (?pid, ?g2)"
    using assms(2) by (intro choice_u_eq) simp
  have "fst (randint (length ?pids) ?g1) < length ?pids"
    using assms(2) by (intro randint_less) simp
  then have "?pid \<in> set ?pids" by (rule nth_mem)
  then obtain p where p: "find (\<lambda>y. product_id y = ?pid) ps = Some p"
    using find_key_in [of ?pid product_id ps] by blast
  let ?qp = "[0.5, 0.25, 0.15, 0.07, 0.03] :: real list"
  let ?q = "[1, 2, 3, 4, 5 :: int] ! choice_index ?qp (fst (random_sample ?g2))"
  let ?g3 = "logged (ChoiceCall (length [1, 2, 3, 4, 5 :: int]) (Some ?qp) 1) (?g2\<lparr>pos := pos ?g2 + 1\<rparr>)"
  have c3: "choice [1, 2, 3, 4, 5 :: int] (Some ?qp) ?g2 = Inr (?q, ?g3)"
    by (rule choice_p_eq; simp)
  note q = quantity_range [of ?g2]
  let ?d = "30 * (- ln (1 - fst (random_sample ?g3)))"
  let ?g4 = "logged (ExponentialCall 30) (?g3\<lparr>pos := pos ?g3 + 1\<rparr>)"
  have c4: "exponential 30 ?g3 = Inr (?d, ?g4)" by (intro exponential_eq) simp
  have d: "0 \<le> ?d" by (intro exponential_nonneg) simp
  note td = timedelta_days_bounds [OF d]
  let ?chp = "[0.7, 0.3] :: real list"
  let ?ch = "[''Online'', ''Store''] ! choice_index ?chp (fst (random_sample ?g4))"
  let ?g5 = "logged (ChoiceCall (length [''Online'', ''Store'']) (Some ?chp) 1) (?g4\<lparr>pos := pos ?g4 + 1\<rparr>)"
  have c5: "choice [''Online'', ''Store''] (Some ?chp) ?g4 = Inr (?ch, ?g5)"
    by (rule choice_p_eq; simp)
  have g5: "?g5 = ?g\<lparr>pos := pos ?g + (if length ps = 1 then 4 else 5),
      calls := calls ?g @ step_calls cs ps\<rparr>"
    by (simp add: logged_def step_calls_def randint_state)
  show ?thesis
    unfolding transaction_step_def c1 sum.case prod.case iloc0_filter_find c option.case
      c2 p Let_def c3 c4 datetime_now_def c5 g5
    using c p q td by simp
qed

lemma transactions_loop_generic:
  assumes step: "\<And>i w. \<exists>t w'. transaction_step cs ps wts i w = Inr (t, w')
            \<and> R i (readings (wall_clock w) (ticks (wall_clock w))) t
            \<and> np_random w' = F (np_random w)
            \<and> wall_clock w' = (wall_clock w)\<lparr>ticks := ticks (wall_clock w) + 1\<rparr>"
  shows "\<exists>txs w'. transactions_loop cs ps wts n i w = Inr (txs, w')
     \<and> length txs = n
     \<and> np_random w' = (F ^^ n) (np_random w)
     \<and> wall_clock w' = (wall_clock w)\<lparr>ticks := ticks (wall_clock w) + n\<rparr>
     \<and> (\<forall>j<n. R (i + int j) (readings (wall_clock w) (ticks (wall_clock w) + j)) (txs ! j))"
proof (induction n arbitrary: i w)
  case 0
  show ?case by simp
next
  case (Suc n)
  obtain t w1 where s: "transaction_step cs ps wts i w = Inr (t, w1)"
      and r: "R i (readings (wall_clock w) (ticks (wall_clock w))) t"
      and g1: "np_random w1 = F (np_random w)"
      and k1: "wall_clock w1 = (wall_clock w)\<lparr>ticks := ticks (wall_clock w) + 1\<rparr>"
    using step [of i w] by blast
  obtain txs w2 where l: "transactions_loop cs ps wts n (i + 1) w1 = Inr (txs, w2)"
      and len: "length txs = n"
      and g2: "np_random w2 = (F ^^ n) (np_random w1)"
      and k2: "wall_clock w2 = (wall_clock w1)\<lparr>ticks := ticks (wall_clock w1) + n\<rparr>"
      and rows: "\<forall>j<n. R (i + 1 + int j)
                   (readings (wall_clock w1) (ticks (wall_clock w1) + j)) (txs ! j)"
    using Suc.IH [of "i + 1" w1] by blast
  have "R (i + int j) (readings (wall_clock w) (ticks (wall_clock w) + j)) ((t # txs) ! j)"
    if "j < Suc n" for j
  proof (cases j)
    case 0
    with r show ?thesis by simp
  next
    case (Suc k)
    with that rows have "R (i + 1 + int k)
        (readings (wall_clock w1) (ticks (wall_clock w1) + k)) (txs ! k)" by simp
    with Suc k1 show ?thesis by (simp add: add.commute add.left_commute)
  qed
  moreover have "(F ^^ n) (np_random w1) = (F ^^ Suc n) (np_random w)"
    using g1 by (simp add: funpow_swap1)
  ultimately show ?case using s l len g2 k1 k2 by simp
qed

lemma funpow_rng_step:
  "((\<lambda>g. g\<lparr>pos := pos g + k, calls := calls g @ block\<rparr>) ^^ n) g =
     g\<lparr>pos := pos g + k * n, calls := calls g @ concat (replicate n block)\<rparr>"
proof (induction n arbitrary: g)
  case 0
  show ?case by simp
next
  case (Suc n)
  let ?F = "\<lambda>g. g\<lparr>pos := pos g + k, calls := calls g @ block\<rparr>"
  have "(?F ^^ Suc n) g = (?F ^^ n) (?F g)" by (simp only: funpow_Suc_right o_apply)
  also have "\<dots> = (?F g)\<lparr>pos := pos (?F g) + k * n,
       calls := calls (?F g) @ concat (replicate n block)\<rparr>"
    by (rule Suc.IH)
  also have "\<dots> = g\<lparr>pos := pos g + k * Suc n, calls := calls g @ concat (replicate (Suc n) block)\<rparr>"
    by simp
  finally show ?case .
qed

lemma transactions_loop_ok:
  assumes "cs \<noteq> []" "ps \<noteq> []"
  shows "\<exists>txs w'. transactions_loop cs ps (customer_weights cs) n i w = Inr (txs, w')
     \<and> length txs = n
     \<and> np_random w' = (np_random w)\<lparr>pos := pos (np_random w) + (if length ps = 1 then 4 else 5) * n,
           calls := calls (np_random w) @ concat (replicate n (step_calls cs ps))\<rparr>
     \<and> wall_clock w' = (wall_clock w)\<lparr>ticks := ticks (wall_clock w) + n\<rparr>
     \<and> (\<forall>j<n. transaction_id (txs ! j) = i + int j + 1
          \<and> (\<exists>c p. find (\<lambda>x. customer_id x = t_customer_id (txs ! j)) cs = Some c
            \<and> find (\<lambda>x. product_id x = t_product_id (txs ! j)) ps = Some p
            \<and> unit_price (txs ! j) = round2 (base_price p * price_multiplier (customer_segment c))
            \<and> total_amount (txs ! j) =
                round2 (of_int (quantity (txs ! j))
                         * (base_price p * price_multiplier (customer_segment c))))
          \<and> 1 \<le> quantity (txs ! j) \<and> quantity (txs ! j) \<le> 5
          \<and> transaction_date (txs ! j) \<le> readings (wall_clock w) (ticks (wall_clock w) + j)
          \<and> readings (wall_clock w) (ticks (wall_clock w) + j) - transaction_date (txs ! j)
                \<le> 365 * 86400000000)"
proof -
  define F where "F = (\<lambda>g::rng. g\<lparr>pos := pos g + (if length ps = 1 then 4 else 5),
      calls := calls g @ step_calls cs ps\<rparr>)"
  define R where "R = (\<lambda>(i::int) (now::int) (t::transaction). transaction_id t = i + 1
          \<and> (\<exists>c p. find (\<lambda>x. customer_id x = t_customer_id t) cs = Some c
            \<and> find (\<lambda>x. product_id x = t_product_id t) ps = Some p
            \<and> unit_price t = round2 (base_price p * price_multiplier (customer_segment c))
            \<and> total_amount t =
                round2 (of_int (quantity t) * (base_price p * price_multiplier (customer_segment c))))
          \<and> 1 \<le> quantity t \<and> quantity t \<le> 5
          \<and> transaction_date t \<le> now \<and> now - transaction_date t \<le> 365 * 86400000000)"
  have step: "\<exists>t w'. transaction_step cs ps (customer_weights cs) i w = Inr (t, w')
            \<and> R i (readings (wall_clock w) (ticks (wall_clock w))) t
            \<and> np_random w' = F (np_random w)
            \<and> wall_clock w' = (wall_clock w)\<lparr>ticks := ticks (wall_clock w) + 1\<rparr>" for i w
    using transaction_step_ok [OF assms, of i w] unfolding R_def F_def
    by (simp only: conj_assoc)
  have "F ^^ n = (\<lambda>g. g\<lparr>pos := pos g + (if length ps = 1 then 4 else 5) * n,
      calls := calls g @ concat (replicate n (step_calls cs ps))\<rparr>)"
    unfolding F_def by (rule ext) (rule funpow_rng_step)
  then show ?thesis
    using transactions_loop_generic [of cs ps "customer_weights cs" R F n i w, OF step]
    unfolding R_def by (simp only: conj_assoc add.assoc)
qed

lemma transaction_step_no_customers: "transaction_step [] ps wts i w = Inl ValueError"
  by (simp add: transaction_step_def choice_empty)

lemma transaction_step_no_products:
  "cs \<noteq> [] \<Longrightarrow> transaction_step cs [] (customer_weights cs) i w = Inl ValueError"
proof -
  assume ne: "cs \<noteq> []"
  obtain cid g1 where c1: "choice (map customer_id cs) (Some (customer_weights cs)) (np_random w)
      = Inr (cid, g1)" and "cid \<in> set (map customer_id cs)"
    using choice_p_eq [of "map customer_id cs" "customer_weights cs" "np_random w"]
      choice_p_in [of "map customer_id cs" "customer_weights cs" "np_random w"]
      customer_weights_valid [OF ne] ne by simp
  then obtain c where "find (\<lambda>y. customer_id y = cid) cs = Some c"
    using find_key_in [of cid customer_id cs] by blast
  then show ?thesis
    by (simp add: transaction_step_def c1 iloc0_filter_find choice_empty)
qed

lemma transactions_loop_Inr_nonempty:
  assumes "transactions_loop cs ps (customer_weights cs) (Suc n) i w = Inr r"
  shows "cs \<noteq> [] \<and> ps \<noteq> []"
proof (rule ccontr)
  assume "\<not> (cs \<noteq> [] \<and> ps \<noteq> [])"
  then consider "cs = []" | "cs \<noteq> []" "ps = []" by blast
  then have "transaction_step cs ps (customer_weights cs) i w = Inl ValueError"
    by cases (simp_all add: transaction_step_no_customers transaction_step_no_products)
  with assms show False by simp
qed

lemma generate_transactions_rows:
  assumes "generate_transactions self cs ps w = Inr (txs, w')"
  shows "length txs = nat (n_transactions self)
     \<and> calls (np_random w') = calls (np_random w)
              @ concat (replicate (nat (n_transactions self)) (step_calls cs ps))
     \<and> wall_clock w' = (wall_clock w)\<lparr>ticks := ticks (wall_clock w) + nat (n_transactions self)\<rparr>
     \<and> (\<forall>j<length txs. transaction_id (txs ! j) = int j + 1
          \<and> (\<exists>c p. find (\<lambda>x. customer_id x = t_customer_id (txs ! j)) cs = Some c
            \<and> find (\<lambda>x. product_id x = t_product_id (txs ! j)) ps = Some p
            \<and> unit_price (txs ! j) = round2 (base_price p * price_multiplier (customer_segment c))
            \<and> total_amount (txs ! j) =
                round2 (of_int (quantity (txs ! j))
                         * (base_price p * price_multiplier (customer_segment c))))
          \<and> 1 \<le> quantity (txs ! j) \<and> quantity (txs ! j) \<le> 5
          \<and> transaction_date (txs ! j) \<le> readings (wall_clock w) (ticks (wall_clock w) + j)
          \<and> readings (wall_clock w) (ticks (wall_clock w) + j) - transaction_date (txs ! j)
                \<le> 365 * 86400000000)"
proof (cases "nat (n_transactions self)")
  case 0
  with assms have "txs = []" "w' = w" by (simp_all add: generate_transactions_def)
  with 0 show ?thesis by simp
next
  case (Suc n)
  with assms have "cs \<noteq> [] \<and> ps \<noteq> []"
    using transactions_loop_Inr_nonempty [of cs ps n 0 w "(txs, w')"]
    by (simp add: generate_transactions_def)
  then show ?thesis
    using transactions_loop_ok [of cs ps "nat (n_transactions self)" 0 w] assms
    by (auto simp: generate_transactions_def)
qed

lemma find_SomeD: "find P xs = Some x \<Longrightarrow> x \<in> set xs \<and> P x"
  by (induction xs) (auto split: if_splits)

section \<open>Properties of the table generators\<close>

lemma length_draws: "length (fst (draws f n g)) = n"
  by (induction n arbitrary: g) (simp_all add: case_prod_unfold)

lemma draws_state:
  assumes "\<And>g. snd (f g) = g\<lparr>pos := pos g + 1\<rparr>"
  shows "snd (draws f n g) = g\<lparr>pos := pos g + n\<rparr>"
proof (induction n arbitrary: g)
  case 0
  show ?case by simp
next
  case (Suc n)
  obtain x g1 where f: "f g = (x, g1)" by (cases "f g")
  with assms [of g] have g1: "g1 = g\<lparr>pos := pos g + 1\<rparr>" by simp
  obtain xs g2 where d: "draws f n g1 = (xs, g2)" by (cases "draws f n g1")
  with Suc.IH [of g1] have "g2 = g1\<lparr>pos := pos g1 + n\<rparr>" by simp
  with f d g1 show ?case by simp
qed

lemma draws_all:
  assumes "\<And>g. P (fst (f g))"
  shows "\<forall>x\<in>set (fst (draws f n g)). P x"
proof (induction n arbitrary: g)
  case 0
  show ?case by simp
next
  case (Suc n)
  obtain x g1 where f: "f g = (x, g1)" by (cases "f g")
  obtain xs g2 where d: "draws f n g1 = (xs, g2)" by (cases "draws f n g1")
  from assms [of g] f have "P x" by simp
  moreover from Suc.IH [of g1] d have "\<forall>y\<in>set xs. P y" by simp
  ultimately show ?case using f d by simp
qed

lemma choice_one_state:
  "p_opt = None \<longrightarrow> length a \<noteq> 1 \<Longrightarrow> snd (choice_one a p_opt g) = g\<lparr>pos := pos g + 1\<rparr>"
  by (cases p_opt) (simp_all add: choice_one_def random_sample_def randint_def)

lemma uniform_one_state: "snd (uniform_one low high g) = g\<lparr>pos := pos g + 1\<rparr>"
  by (simp add: uniform_one_def random_sample_def)

lemma uniform_one_lower: "low \<le> high \<Longrightarrow> low \<le> fst (uniform_one low high g)"
proof -
  assume "low \<le> high"
  moreover have "0 \<le> fst (random_sample g)" using random_sample_range [of g] by simp
  ultimately have "0 \<le> (high - low) * fst (random_sample g)" by simp
  then show ?thesis by (simp add: uniform_one_def case_prod_unfold)
qed

lemma choice_n_eq:
  assumes "choice_checks a (n \<noteq> 0) p_opt" and "0 \<le> n" and "p_opt = None \<longrightarrow> length a \<noteq> 1"
  shows "choice_n a n p_opt g =
     Inr (fst (draws (choice_one a p_opt) (nat n) g),
          logged (ChoiceCall (length a) p_opt (nat n)) (g\<lparr>pos := pos g + nat n\<rparr>))"
  using assms(1,2) draws_state [of "choice_one a p_opt" "nat n" g, OF choice_one_state [OF assms(3)]]
  by (simp add: choice_n_def case_prod_unfold)

lemma choice_n_negative: "n < 0 \<Longrightarrow> choice_n a n p_opt g = Inl ValueError"
  by (simp add: choice_n_def)

lemma uniform_n_eq:
  assumes "0 \<le> n"
  shows "uniform_n low high n g =
     Inr (fst (draws (uniform_one low high) (nat n) g),
          logged (UniformCall low high (nat n)) (g\<lparr>pos := pos g + nat n\<rparr>))"
  using assms draws_state [of "uniform_one low high" "nat n" g, OF uniform_one_state]
  by (simp add: uniform_n_def case_prod_unfold)

lemma checks_segments: "choice_checks segments b (Some [0.2, 0.5, 0.3])"
  by (simp add: choice_checks_def segments_def)

lemma checks_regions: "choice_checks regions b None"
  by (simp add: choice_checks_def regions_def)

lemma checks_age_groups: "choice_checks age_groups b (Some [0.15, 0.25, 0.25, 0.20, 0.15])"
  by (simp add: choice_checks_def age_groups_def)

lemma checks_categories: "choice_checks categories b None"
  by (simp add: choice_checks_def categories_def)

lemma date_range_ok: "0 \<le> n \<Longrightarrow> \<exists>ds. date_range a b n = Inr ds \<and> length ds = nat n"
  by (auto simp: date_range_def)

lemma generate_customers_ok:
  assumes "0 \<le> n_customers self"
  shows "\<exists>rows. generate_customers self w =
       Inr (rows, w\<lparr>np_random := (np_random w)\<lparr>pos := pos (np_random w) + 3 * nat (n_customers self),
          calls := calls (np_random w) @
            [ChoiceCall 3 (Some [0.2, 0.5, 0.3]) (nat (n_customers self)),
             ChoiceCall 5 None (nat (n_customers self)),
             ChoiceCall 5 (Some [0.15, 0.25, 0.25, 0.20, 0.15]) (nat (n_customers self))]\<rparr>\<rparr>)
     \<and> map customer_id rows = [1..n_customers self]"
proof -
  let ?n = "n_customers self"
  let ?g = "np_random w"
  let ?p1 = "Some [0.2, 0.5, 0.3 :: real]"
  let ?p3 = "Some [0.15, 0.25, 0.25, 0.20, 0.15 :: real]"
  let ?segs = "fst (draws (choice_one segments ?p1) (nat ?n) ?g)"
  let ?g1 = "logged (ChoiceCall (length segments) ?p1 (nat ?n)) (?g\<lparr>pos := pos ?g + nat ?n\<rparr>)"
  let ?regs = "fst (draws (choice_one regions None) (nat ?n) ?g1)"
  let ?g2 = "logged (ChoiceCall (length regions) None (nat ?n)) (?g1\<lparr>pos := pos ?g1 + nat ?n\<rparr>)"
  let ?ages = "fst (draws (choice_one age_groups ?p3) (nat ?n) ?g2)"
  let ?g3 = "logged (ChoiceCall (length age_groups) ?p3 (nat ?n)) (?g2\<lparr>pos := pos ?g2 + nat ?n\<rparr>)"
  have c1: "choice_n segments ?n ?p1 ?g = Inr (?segs, ?g1)"
    by (rule choice_n_eq [OF checks_segments assms]) simp
  have c2: "choice_n regions ?n None ?g1 = Inr (?regs, ?g2)"
    by (rule choice_n_eq [OF checks_regions assms]) (simp add: regions_def)
  have c3: "choice_n age_groups ?n ?p3 ?g2 = Inr (?ages, ?g3)"
    by (rule choice_n_eq [OF checks_age_groups assms]) simp
  obtain ds where ds: "date_range date_2022_01_01 date_2024_12_31 ?n = Inr ds"
    and lds: "length ds = nat ?n"
    using date_range_ok [OF assms] by blast
  let ?rows = "map (\<lambda>i. \<lparr>customer_id = [1..?n] ! i, customer_segment = ?segs ! i,
                           region = ?regs ! i, registration_date = ds ! i,
                           age_group = ?ages ! i\<rparr>) [0..<length [1..?n]]"
  have rows: "customer_rows [1..?n] ?segs ?regs ds ?ages = Inr ?rows"
    by (simp add: customer_rows_def length_draws lds)
  have ids: "map customer_id ?rows = [1..?n]"
    using map_nth [of "[1..?n]"] by (simp add: o_def)
  have g3: "?g3 = ?g\<lparr>pos := pos ?g + 3 * nat ?n,
          calls := calls ?g @
            [ChoiceCall 3 ?p1 (nat ?n), ChoiceCall 5 None (nat ?n), ChoiceCall 5 ?p3 (nat ?n)]\<rparr>"
    by (simp add: logged_def segments_def regions_def age_groups_def)
  have "generate_customers self w = Inr (?rows, w\<lparr>np_random := ?g3\<rparr>)"
    unfolding generate_customers_def Let_def c1 c2 c3 ds rows sum.case prod.case ..
  with ids g3 show ?thesis by simp
qed

lemma generate_customers_negative:
  "n_customers self < 0 \<Longrightarrow> generate_customers self w = Inl ValueError"
  by (simp add: generate_customers_def Let_def choice_n_def checks_segments)

lemma generate_products_ok:
  assumes "0 \<le> n_products self"
  shows "\<exists>rows. generate_products self w =
       Inr (rows, w\<lparr>np_random := (np_random w)\<lparr>pos := pos (np_random w) + 3 * nat (n_products self),
          calls := calls (np_random w) @
            [ChoiceCall 6 None (nat (n_products self)),
             UniformCall 10 500 (nat (n_products self)),
             UniformCall 5 300 (nat (n_products self))]\<rparr>\<rparr>)
     \<and> map product_id rows = [1..n_products self]
     \<and> (\<forall>p\<in>set rows. profit_margin p = (base_price p - cost p) / base_price p
            \<and> 10 \<le> base_price p)"
proof -
  let ?n = "n_products self"
  let ?g = "np_random w"
  let ?cats = "fst (draws (choice_one categories None) (nat ?n) ?g)"
  let ?g1 = "logged (ChoiceCall (length categories) None (nat ?n)) (?g\<lparr>pos := pos ?g + nat ?n\<rparr>)"
  let ?prices = "fst (draws (uniform_one 10 500) (nat ?n) ?g1)"
  let ?g2 = "logged (UniformCall 10 500 (nat ?n)) (?g1\<lparr>pos := pos ?g1 + nat ?n\<rparr>)"
  let ?costs = "fst (draws (uniform_one 5 300) (nat ?n) ?g2)"
  let ?g3 = "logged (UniformCall 5 300 (nat ?n)) (?g2\<lparr>pos := pos ?g2 + nat ?n\<rparr>)"
  have c1: "choice_n categories ?n None ?g = Inr (?cats, ?g1)"
    by (rule choice_n_eq [OF checks_categories assms]) (simp add: categories_def)
  have c2: "uniform_n 10 500 ?n ?g1 = Inr (?prices, ?g2)"
    by (rule uniform_n_eq [OF assms])
  have c3: "uniform_n 5 300 ?n ?g2 = Inr (?costs, ?g3)"
    by (rule uniform_n_eq [OF assms])
  let ?rows = "map (\<lambda>i. \<lparr>product_id = [1..?n] ! i, category = ?cats ! i,
                           base_price = ?prices ! i, cost = ?costs ! i,
                           profit_margin = (?prices ! i - ?costs ! i) / ?prices ! i\<rparr>)
                  [0..<length [1..?n]]"
  have rows: "product_rows [1..?n] ?cats ?prices ?costs = Inr ?rows"
    by (simp add: product_rows_def length_draws)
  have ids: "map product_id ?rows = [1..?n]"
    using map_nth [of "[1..?n]"] by (simp add: o_def)
  have "\<forall>x\<in>set ?prices. 10 \<le> x"
    by (rule draws_all) (simp add: uniform_one_lower)
  then have prices: "10 \<le> ?prices ! i" if "i < nat ?n" for i
    using that by (simp add: length_draws)
  have each: "\<forall>p\<in>set ?rows. profit_margin p = (base_price p - cost p) / base_price p
            \<and> 10 \<le> base_price p"
    using prices by simp
  have g3: "?g3 = ?g\<lparr>pos := pos ?g + 3 * nat ?n,
          calls := calls ?g @
            [ChoiceCall 6 None (nat ?n), UniformCall 10 500 (nat ?n), UniformCall 5 300 (nat ?n)]\<rparr>"
    by (simp add: logged_def categories_def)
  have "generate_products self w = Inr (?rows, w\<lparr>np_random := ?g3\<rparr>)"
    unfolding generate_products_def Let_def c1 c2 c3 rows sum.case prod.case ..
  with ids each g3 show ?thesis by (intro exI [of _ ?rows]) simp
qed

lemma generate_products_negative:
  "n_products self < 0 \<Longrightarrow> generate_products self w = Inl ValueError"
  by (simp add: generate_products_def Let_def choice_n_def checks_categories)

lemma generate_transactions_nonpositive:
  "n_transactions self \<le> 0 \<Longrightarrow> generate_transactions self customers products w = Inr ([], w)"
  by (simp add: generate_transactions_def)

lemma generate_transactions_empty_table:
  assumes "1 \<le> n_transactions self" and "customers = [] \<or> products = []"
  shows "generate_transactions self customers products w = Inl ValueError"
proof -
  obtain n where n: "nat (n_transactions self) = Suc n"
    using assms(1) by (cases "nat (n_transactions self)") auto
  have "transaction_step customers products (customer_weights customers) 0 w = Inl ValueError"
    using assms(2) transaction_step_no_customers transaction_step_no_products
    by (cases "customers = []") auto
  then show ?thesis by (simp add: generate_transactions_def n)
qed

section \<open>What does not depend on the clock\<close>

lemma generate_customers_clock_free:
  "generate_customers self w =
     map_sum id (\<lambda>(rows, v). (rows, w\<lparr>np_random := np_random v\<rparr>))
       (generate_customers self (w\<lparr>wall_clock := k\<rparr>))"
  by (simp add: generate_customers_def Let_def split: sum.splits prod.splits)

lemma generate_products_clock_free:
  "generate_products self w =
     map_sum id (\<lambda>(rows, v). (rows, w\<lparr>np_random := np_random v\<rparr>))
       (generate_products self (w\<lparr>wall_clock := k\<rparr>))"
  by (simp add: generate_products_def Let_def split: sum.splits prod.splits)

lemma transaction_step_clock_free:
  assumes "np_random w1 = np_random w2"
  shows "map_sum id (\<lambda>(t, v). (without_date t, np_random v)) (transaction_step cs ps wts i w1) =
         map_sum id (\<lambda>(t, v). (without_date t, np_random v)) (transaction_step cs ps wts i w2)"
  using assms
  by (simp add: transaction_step_def datetime_now_def without_date_def Let_def
      split: sum.splits prod.splits)

lemma transactions_loop_clock_free:
  assumes "np_random w1 = np_random w2"
  shows "map_sum id (\<lambda>(ts, v). (map without_date ts, np_random v))
           (transactions_loop cs ps wts n i w1) =
         map_sum id (\<lambda>(ts, v). (map without_date ts, np_random v))
           (transactions_loop cs ps wts n i w2)"
  using assms
proof (induction n arbitrary: i w1 w2)
  case 0
  then show ?case by simp
next
  case (Suc n)
  note step = transaction_step_clock_free [OF Suc.prems, of cs ps wts i]
  show ?case
  proof (cases "transaction_step cs ps wts i w1")
    case (Inl e)
    with step have "transaction_step cs ps wts i w2 = Inl e"
      by (cases "transaction_step cs ps wts i w2") auto
    with Inl show ?thesis by simp
  next
    case (Inr r1)
    obtain t1 v1 where r1: "r1 = (t1, v1)" by (cases r1)
    with Inr step obtain t2 v2 where s2: "transaction_step cs ps wts i w2 = Inr (t2, v2)"
      and t: "without_date t1 = without_date t2" and v: "np_random v1 = np_random v2"
      by (cases "transaction_step cs ps wts i w2") auto
    note ih = Suc.IH [OF v, of "i + 1"]
    show ?thesis
    proof (cases "transactions_loop cs ps wts n (i + 1) v1")
      case (Inl e)
      with ih have "transactions_loop cs ps wts n (i + 1) v2 = Inl e"
        by (cases "transactions_loop cs ps wts n (i + 1) v2") auto
      with Inl Inr r1 s2 show ?thesis by simp
    next
      case (Inr q1)
      obtain ts1 u1 where q1: "q1 = (ts1, u1)" by (cases q1)
      with Inr ih obtain ts2 u2 where l2: "transactions_loop cs ps wts n (i + 1) v2 = Inr (ts2, u2)"
        and "map without_date ts1 = map without_date ts2" and "np_random u1 = np_random u2"
        by (cases "transactions_loop cs ps wts n (i + 1) v2") auto
      with Inr q1 \<open>transaction_step cs ps wts i w1 = Inr r1\<close> r1 s2 t show ?thesis by simp
    qed
  qed
qed

lemma generate_all_data_clock_free:
  assumes "np_random w1 = np_random w2"
  shows "map_sum id (\<lambda>((cs, ps, ts), v). (cs, ps, map without_date ts)) (generate_all_data self w1) =
         map_sum id (\<lambda>((cs, ps, ts), v). (cs, ps, map without_date ts)) (generate_all_data self w2)"
proof -
  have w: "w1\<lparr>wall_clock := wall_clock w2\<rparr> = w2" using assms by simp
  note c = generate_customers_clock_free [of self w1 "wall_clock w2", unfolded w]
  show ?thesis
  proof (cases "generate_customers self w2")
    case (Inl e)
    with c show ?thesis by (simp add: generate_all_data_def)
  next
    case (Inr r)
    obtain cs v2 where r: "r = (cs, v2)" by (cases r)
    define v1 where "v1 = w1\<lparr>np_random := np_random v2\<rparr>"
    have c1: "generate_customers self w1 = Inr (cs, v1)" using c Inr r by (simp add: v1_def)
    have c2: "generate_customers self w2 = Inr (cs, v2)" using Inr r by simp
    have v: "np_random v1 = np_random v2" by (simp add: v1_def)
    then have v': "v1\<lparr>wall_clock := wall_clock v2\<rparr> = v2" by simp
    note p = generate_products_clock_free [of self v1 "wall_clock v2", unfolded v']
    show ?thesis
    proof (cases "generate_products self v2")
      case (Inl e)
      with p c1 c2 show ?thesis by (simp add: generate_all_data_def)
    next
      case (Inr q)
      obtain ps u2 where q: "q = (ps, u2)" by (cases q)
      define u1 where "u1 = v1\<lparr>np_random := np_random u2\<rparr>"
      have p1: "generate_products self v1 = Inr (ps, u1)" using p Inr q by (simp add: u1_def)
      have p2: "generate_products self v2 = Inr (ps, u2)" using Inr q by simp
      have u: "np_random u1 = np_random u2" by (simp add: u1_def)
      note t = transactions_loop_clock_free [OF u, of cs ps "customer_weights cs"
          "nat (n_transactions self)" 0]
      show ?thesis
      proof (cases "generate_transactions self cs ps u1")
        case (Inl e)
        with t have "generate_transactions self cs ps u2 = Inl e"
          by (cases "generate_transactions self cs ps u2") (auto simp: generate_transactions_def)
        with Inl c1 c2 p1 p2 show ?thesis by (simp add: generate_all_data_def)
      next
        case (Inr x)
        obtain ts1 y1 where x: "x = (ts1, y1)" by (cases x)
        with Inr t obtain ts2 y2 where t2: "generate_transactions self cs ps u2 = Inr (ts2, y2)"
          and "map without_date ts1 = map without_date ts2"
          by (cases "generate_transactions self cs ps u2") (auto simp: generate_transactions_def)
        with Inr x c1 c2 p1 p2 show ?thesis by (simp add: generate_all_data_def)
      qed
    qed
  qed
qed

section \<open>Concrete runs\<close>

lemmas eval_defs = generate_all_data_def generate_customers_def generate_products_def
      generate_transactions_def seed_def
      transaction_step_def choice_def choice_n_def uniform_n_def uniform_one_def
      choice_checks_def choice_one_def customer_rows_def product_rows_def
      segments_def regions_def age_groups_def categories_def date_range_def
      random_sample_def randint_def customer_weights_def choice_index_def cumsum_def
      searchsorted_right_def exponential_def logged_def datetime_now_def timedelta_days_def
      round_half_even_def round2_def iloc0_def Let_def

lemma draws_numeral:
  "draws f (numeral k) g =
     (case f g of (x, g1) \<Rightarrow> (case draws f (pred_numeral k) g1 of (xs, g2) \<Rightarrow> (x # xs, g2)))"
  by (simp add: numeral_eq_Suc)

lemma upt_0_2: "[0..<2] = [0, 1]"
  by (simp add: numeral_2_eq_2)

lemma upto_1_2: "[1..2::int] = [1, 2]"
  by (simp add: upto.simps)

lemma ex_run:
  "generate_transactions ex_generator ex_customers ex_products ex_world =
     Inr (ex_transactions, ex_world_after)"
  by (simp add: generate_transactions_def ex_generator_def ex_customers_def ex_products_def
      ex_world_def ex_bits_def ex_transactions_def ex_world_after_def
      transaction_step_def choice_def choice_checks_def choice_one_def
      random_sample_def randint_def customer_weights_def choice_index_def cumsum_def
      searchsorted_right_def exponential_def logged_def datetime_now_def timedelta_days_def
      round_half_even_def round2_def iloc0_def Let_def step_calls_def)

lemma ex_two_customers:
  "generate_customers \<lparr>n_customers = 2, n_products = 0, n_transactions = 0\<rparr> ex_world =
     Inr ([\<lparr>customer_id = 1, customer_segment = Premium, region = ''South'',
             registration_date = date_2022_01_01, age_group = ''18-25''\<rparr>,
           \<lparr>customer_id = 2, customer_segment = Premium, region = ''North'',
             registration_date = date_2024_12_31, age_group = ''18-25''\<rparr>],
          ex_world\<lparr>np_random := \<lparr>bits = ex_bits, pos = 6, calls =
             [ChoiceCall 3 (Some [0.2, 0.5, 0.3]) 2, ChoiceCall 5 None 2,
              ChoiceCall 5 (Some [0.15, 0.25, 0.25, 0.20, 0.15]) 2]\<rparr>\<rparr>)"
  by (simp add: eval_defs ex_world_def ex_bits_def draws_numeral upt_0_2 upto_1_2 date_2022_01_01_def date_2024_12_31_def)

lemma ex_half_product:
  "generate_products \<lparr>n_customers = 0, n_products = 1, n_transactions = 0\<rparr> half_world =
     Inr ([\<lparr>product_id = 1, category = ''Electronics'', base_price = 10, cost = 152.5,
             profit_margin = - 14.25\<rparr>],
          half_world\<lparr>np_random := \<lparr>bits = half_bits, pos = 3, calls =
             [ChoiceCall 6 None 1, UniformCall 10 500 1, UniformCall 5 300 1]\<rparr>\<rparr>)"
  by (simp add: eval_defs half_world_def half_bits_def)

lemma ex_zero_run:
  "main_tables mt_zero 1 1 1 w =
     Inr (zero_customers, zero_products,
          [zero_transaction (readings (wall_clock w) (ticks (wall_clock w)))])"
  by (simp add: main_tables_def EcommerceDataGenerator_def eval_defs mt_zero_def
      zero_customers_def zero_products_def zero_transaction_def)

lemma ex_zero_generator:
  "map_sum id fst (generate_all_data zero_generator w) = Inr ([], [], [])"
  by (simp add: eval_defs zero_generator_def)

section \<open>The claims\<close>

subsection \<open>Claim C1: the total amount\<close>

text \<open>
  Claim C1 says that the stored total is the rounding of quantity times the stored,
  already rounded unit price. In the concrete run the base price is \<open>10 + 1/256\<close>,
  the segment Standard and the quantity 5: the stored unit price is 10.00 and the
  stored total 50.02, while quantity times the stored unit price rounds to 50.00.
\<close>
theorem total_amount_stored_price_counterexample:
  "generate_transactions ex_generator ex_customers ex_products ex_world
        = Inr (ex_transactions, ex_world_after)
   \<and> hd ex_transactions \<in> set ex_transactions
   \<and> total_amount (hd ex_transactions) \<noteq>
       round2 (of_int (quantity (hd ex_transactions)) * unit_price (hd ex_transactions))"
  using ex_run
  by (simp add: ex_transactions_def round2_def round_half_even_def)

text \<open>
  Claim C1, as the code has it. The two fields are rounded separately from the same
  unrounded price: for every generated row, the stored unit price is the rounding of
  base price times multiplier, and the stored total is the rounding of quantity times
  the unrounded base price times multiplier.
\<close>
theorem total_amount_from_unrounded_price:
  assumes "generate_transactions self customers products w = Inr (txs, w')" and "t \<in> set txs"
  shows "\<exists>c p. find (\<lambda>x. customer_id x = t_customer_id t) customers = Some c
      \<and> find (\<lambda>x. product_id x = t_product_id t) products = Some p
      \<and> unit_price t = round2 (base_price p * price_multiplier (customer_segment c))
      \<and> total_amount t =
          round2 (of_int (quantity t) * (base_price p * price_multiplier (customer_segment c)))"
proof -
  from assms(2) obtain j where j: "j < length txs" and t: "t = txs ! j"
    by (auto simp: in_set_conv_nth)
  with generate_transactions_rows [OF assms(1)] show ?thesis by blast
qed

text \<open>
  The concrete run: the total 50.02 is the rounding of \<open>5 * (2561 / 256)\<close>.
\<close>
theorem total_amount_from_unrounded_price_witness:
  "generate_transactions ex_generator ex_customers ex_products ex_world
        = Inr (ex_transactions, ex_world_after)
   \<and> hd ex_transactions \<in> set ex_transactions
   \<and> find (\<lambda>x. customer_id x = t_customer_id (hd ex_transactions)) ex_customers
        = Some (hd ex_customers)
   \<and> find (\<lambda>x. product_id x = t_product_id (hd ex_transactions)) ex_products
        = Some (hd ex_products)
   \<and> total_amount (hd ex_transactions) =
        round2 (of_int (quantity (hd ex_transactions))
          * (base_price (hd ex_products) * price_multiplier (customer_segment (hd ex_customers))))"
  using total_amount_from_unrounded_price [OF ex_run, of "hd ex_transactions"] ex_run
  by (simp add: ex_customers_def ex_products_def ex_transactions_def)

subsection \<open>Claim C2: two runs with the same seed and counts\<close>

text \<open>
  Claim C2 says that two runs with the same seed and counts produce identical tables.
  Two runs of the script with counts 1, 1, 1 on the same stream, started one minute
  apart, produce transaction tables whose dates differ: the date is the clock reading
  minus the offset.
\<close>
theorem runs_differ_with_clock_counterexample:
  "main_tables mt_zero 1 1 1 world_early =
      Inr (zero_customers, zero_products, [zero_transaction 1700000000000000])
   \<and> main_tables mt_zero 1 1 1 world_late =
      Inr (zero_customers, zero_products, [zero_transaction 1700000060000000])
   \<and> main_tables mt_zero 1 1 1 world_early \<noteq> main_tables mt_zero 1 1 1 world_late"
  by (simp add: ex_zero_run world_early_def world_late_def zero_transaction_def)

text \<open>
  Claim C2, as the code has it. Two runs with the same seed and the same three counts
  fail alike or produce the same customer table, the same product table, and
  transaction tables equal in every column but the date, whatever the worlds they
  start in; started at equal clocks, they produce identical tables.
\<close>
theorem runs_agree_apart_from_clock:
  "map_sum id (\<lambda>(cs, ps, ts). (cs, ps, map without_date ts)) (main_tables mt nc np nt w1) =
   map_sum id (\<lambda>(cs, ps, ts). (cs, ps, map without_date ts)) (main_tables mt nc np nt w2)
   \<and> (wall_clock w1 = wall_clock w2 \<longrightarrow>
        main_tables mt nc np nt w1 = main_tables mt nc np nt w2)"
proof -
  let ?self = "\<lparr>n_customers = nc, n_products = np, n_transactions = nt\<rparr>"
  let ?v1 = "w1\<lparr>np_random := seed mt 42\<rparr>"
  let ?v2 = "w2\<lparr>np_random := seed mt 42\<rparr>"
  have m: "main_tables mt nc np nt w = map_sum id fst (generate_all_data ?self (w\<lparr>np_random := seed mt 42\<rparr>))"
    for w
    by (simp add: main_tables_def EcommerceDataGenerator_def split: sum.splits)
  have "np_random ?v1 = np_random ?v2" by simp
  from generate_all_data_clock_free [OF this, of ?self]
  have a: "map_sum id (\<lambda>(cs, ps, ts). (cs, ps, map without_date ts)) (main_tables mt nc np nt w1) =
   map_sum id (\<lambda>(cs, ps, ts). (cs, ps, map without_date ts)) (main_tables mt nc np nt w2)"
    unfolding m by (cases "generate_all_data ?self ?v1"; cases "generate_all_data ?self ?v2") auto
  have b: "wall_clock w1 = wall_clock w2 \<longrightarrow>
        main_tables mt nc np nt w1 = main_tables mt nc np nt w2"
  proof
    assume "wall_clock w1 = wall_clock w2"
    then have "?v1 = ?v2" by simp
    then show "main_tables mt nc np nt w1 = main_tables mt nc np nt w2"
      unfolding m by simp
  qed
  from a b show ?thesis ..
qed

text \<open>
  Two worlds with equal clocks and different random states give identical tables; two
  worlds one minute apart give tables equal apart from the dates.
\<close>
theorem runs_agree_apart_from_clock_witness:
  "wall_clock world_early = wall_clock ex_world
   \<and> bits (np_random world_early) 2 \<noteq> bits (np_random ex_world) 2
   \<and> main_tables mt_zero 1 1 1 world_early = main_tables mt_zero 1 1 1 ex_world
   \<and> map_sum id (\<lambda>(cs, ps, ts). (cs, ps, map without_date ts))
        (main_tables mt_zero 1 1 1 world_early) =
      map_sum id (\<lambda>(cs, ps, ts). (cs, ps, map without_date ts))
        (main_tables mt_zero 1 1 1 world_late)"
  using runs_agree_apart_from_clock [of mt_zero 1 1 1 world_early ex_world]
    runs_agree_apart_from_clock [of mt_zero 1 1 1 world_early world_late]
  by (simp add: world_early_def ex_world_def seed_def mt_zero_def ex_bits_def)

subsection \<open>Claim C3: empty tables and non-positive counts\<close>

text \<open>
  Claim C3 says that an empty customer table, an empty product table or a
  non-positive count makes generation fail. With all three counts zero,
  \<open>generate_all_data\<close> returns three empty tables, and \<open>generate_transactions\<close> on
  empty tables returns an empty table; nothing is raised.
\<close>
theorem no_failure_on_zero_counts_counterexample:
  "n_customers zero_generator \<le> 0 \<and> n_products zero_generator \<le> 0
   \<and> n_transactions zero_generator \<le> 0
   \<and> map_sum id fst (generate_all_data zero_generator ex_world) = Inr ([], [], [])
   \<and> generate_transactions zero_generator [] [] ex_world = Inr ([], ex_world)"
  using ex_zero_generator [of ex_world]
  by (simp add: zero_generator_def generate_transactions_def)

text \<open>
  Claim C3, as the code has it. The code checks nothing itself; the only failures are
  numpy's. With a transaction count of at least one, an empty customer table or an
  empty product table makes \<open>generate_transactions\<close> raise ValueError, and no table is
  returned; with a transaction count of zero or less it returns the empty table and
  leaves the world as it was, whatever the tables. A negative customer or product
  count makes its generator raise ValueError; a zero count gives an empty table.
\<close>
theorem failure_conditions:
  "(n_transactions self \<le> 0 \<longrightarrow>
       generate_transactions self customers products w = Inr ([], w))
   \<and> (1 \<le> n_transactions self \<and> (customers = [] \<or> products = []) \<longrightarrow>
       generate_transactions self customers products w = Inl ValueError)
   \<and> (n_customers self < 0 \<longrightarrow> generate_customers self w = Inl ValueError)
   \<and> (n_customers self = 0 \<longrightarrow> (\<exists>w'. generate_customers self w = Inr ([], w')))
   \<and> (n_products self < 0 \<longrightarrow> generate_products self w = Inl ValueError)
   \<and> (n_products self = 0 \<longrightarrow> (\<exists>w'. generate_products self w = Inr ([], w')))"
proof -
  have c0: "\<exists>w'. generate_customers self w = Inr ([], w')" if "n_customers self = 0"
    using generate_customers_ok [of self w] that by auto
  have p0: "\<exists>w'. generate_products self w = Inr ([], w')" if "n_products self = 0"
    using generate_products_ok [of self w] that by auto
  show ?thesis
    using c0 p0 generate_transactions_nonpositive generate_transactions_empty_table
      generate_customers_negative generate_products_negative
    by blast
qed

text \<open>
  Each case at a concrete input.
\<close>
theorem failure_conditions_witness:
  "n_transactions zero_generator \<le> 0
   \<and> generate_transactions zero_generator [] [] ex_world = Inr ([], ex_world)
   \<and> 1 \<le> n_transactions ex_generator
   \<and> generate_transactions ex_generator [] ex_products ex_world = Inl ValueError
   \<and> generate_transactions ex_generator ex_customers [] ex_world = Inl ValueError
   \<and> n_customers negative_generator < 0
   \<and> generate_customers negative_generator ex_world = Inl ValueError
   \<and> n_customers zero_generator = 0
   \<and> (\<exists>w'. generate_customers zero_generator ex_world = Inr ([], w'))
   \<and> n_products negative_generator < 0
   \<and> generate_products negative_generator ex_world = Inl ValueError
   \<and> n_products zero_generator = 0
   \<and> (\<exists>w'. generate_products zero_generator ex_world = Inr ([], w'))"
  using failure_conditions [of zero_generator "[]" "[]" ex_world]
    failure_conditions [of ex_generator "[]" ex_products ex_world]
    failure_conditions [of ex_generator ex_customers "[]" ex_world]
    failure_conditions [of negative_generator "[]" "[]" ex_world]
  by (simp add: zero_generator_def ex_generator_def negative_generator_def)

subsection \<open>Claim C4: the unit price\<close>

text \<open>
  Claim C4. Every generated row refers to a customer and a product of the input tables
  (the first row carrying that id, as \<open>.iloc[0]\<close> takes it), and its stored unit price
  is the product's base price times the multiplier of the customer's segment (Premium
  1.10, Standard 1.00, Basic 0.90), rounded to two decimals.
\<close>
theorem unit_price_rounded_segment_price:
  assumes "generate_transactions self customers products w = Inr (txs, w')" and "t \<in> set txs"
  shows "\<exists>c p. find (\<lambda>x. customer_id x = t_customer_id t) customers = Some c
      \<and> find (\<lambda>x. product_id x = t_product_id t) products = Some p
      \<and> unit_price t = round2 (base_price p *
            (case customer_segment c of Premium \<Rightarrow> 1.10 | Standard \<Rightarrow> 1.00 | Basic \<Rightarrow> 0.90))"
proof -
  from assms(2) obtain j where j: "j < length txs" and t: "t = txs ! j"
    by (auto simp: in_set_conv_nth)
  with generate_transactions_rows [OF assms(1)]
  obtain c p where c: "find (\<lambda>x. customer_id x = t_customer_id t) customers = Some c"
    and p: "find (\<lambda>x. product_id x = t_product_id t) products = Some p"
    and u: "unit_price t = round2 (base_price p * price_multiplier (customer_segment c))"
    by blast
  have "price_multiplier s = (case s of Premium \<Rightarrow> 1.10 | Standard \<Rightarrow> 1.00 | Basic \<Rightarrow> 0.90)" for s
    by (cases s) simp_all
  with c p u show ?thesis by auto
qed

text \<open>
  The concrete run: a Standard customer, so the unit price is the rounded base price.
\<close>
theorem unit_price_rounded_segment_price_witness:
  "generate_transactions ex_generator ex_customers ex_products ex_world
        = Inr (ex_transactions, ex_world_after)
   \<and> hd ex_transactions \<in> set ex_transactions
   \<and> find (\<lambda>x. customer_id x = t_customer_id (hd ex_transactions)) ex_customers
        = Some (hd ex_customers)
   \<and> find (\<lambda>x. product_id x = t_product_id (hd ex_transactions)) ex_products
        = Some (hd ex_products)
   \<and> customer_segment (hd ex_customers) = Standard
   \<and> unit_price (hd ex_transactions) = round2 (base_price (hd ex_products) * 1.00)"
  using unit_price_rounded_segment_price [OF ex_run, of "hd ex_transactions"] ex_run
  by (simp add: ex_customers_def ex_products_def ex_transactions_def)

subsection \<open>Claim C5: the order of the draws\<close>



subsection \<open>Claim C6: quantity and date\<close>

text \<open>
  Claim C6. In every generated row the quantity lies between 1 and 5; the transaction
  date is not after the clock reading taken in the row's pass (its generation time),
  and lies at most 365 days (counted in microseconds) before it.
\<close>
theorem quantity_and_date_bounds:
  assumes "generate_transactions self customers products w = Inr (txs, w')" and "j < length txs"
  shows "1 \<le> quantity (txs ! j) \<and> quantity (txs ! j) \<le> 5
     \<and> transaction_date (txs ! j) \<le> readings (wall_clock w) (ticks (wall_clock w) + j)
     \<and> readings (wall_clock w) (ticks (wall_clock w) + j) - transaction_date (txs ! j)
          \<le> 365 * 86400000000"
  using generate_transactions_rows [OF assms(1)] assms(2) by blast

text \<open>
  The concrete run: quantity 5, offset 0.
\<close>
theorem quantity_and_date_bounds_witness:
  "generate_transactions ex_generator ex_customers ex_products ex_world
        = Inr (ex_transactions, ex_world_after)
   \<and> 0 < length ex_transactions
   \<and> 1 \<le> quantity (ex_transactions ! 0) \<and> quantity (ex_transactions ! 0) \<le> 5
   \<and> transaction_date (ex_transactions ! 0)
        \<le> readings (wall_clock ex_world) (ticks (wall_clock ex_world) + 0)
   \<and> readings (wall_clock ex_world) (ticks (wall_clock ex_world) + 0)
        - transaction_date (ex_transactions ! 0) \<le> 365 * 86400000000"
  using quantity_and_date_bounds [OF ex_run, of 0] ex_run
  by (simp add: ex_transactions_def)

subsection \<open>Claim C7: count, ids and references\<close>

text \<open>
  Claim C7. With a transaction count \<open>T\<close> and non-empty customer and product tables,
  \<open>generate_transactions\<close> returns, and returns exactly \<open>T\<close> rows; their transaction
  ids are \<open>1, \<dots>, T\<close> in the order drawn, and every row's customer id and product id
  is the id of a row of the table passed in.
\<close>
theorem transactions_count_ids_references:
  assumes "customers \<noteq> []" and "products \<noteq> []" and "0 \<le> n_transactions self"
  shows "\<exists>txs w'. generate_transactions self customers products w = Inr (txs, w')
     \<and> int (length txs) = n_transactions self
     \<and> map transaction_id txs = [1..n_transactions self]
     \<and> (\<forall>t\<in>set txs. t_customer_id t \<in> customer_id ` set customers
                    \<and> t_product_id t \<in> product_id ` set products)"
proof -
  let ?n = "nat (n_transactions self)"
  obtain txs w' where run: "transactions_loop customers products (customer_weights customers) ?n 0 w
        = Inr (txs, w')"
    and len: "length txs = ?n"
    and rows: "\<forall>j<?n. transaction_id (txs ! j) = 0 + int j + 1
          \<and> (\<exists>c p. find (\<lambda>x. customer_id x = t_customer_id (txs ! j)) customers = Some c
            \<and> find (\<lambda>x. product_id x = t_product_id (txs ! j)) products = Some p
            \<and> unit_price (txs ! j) = round2 (base_price p * price_multiplier (customer_segment c))
            \<and> total_amount (txs ! j) =
                round2 (of_int (quantity (txs ! j))
                         * (base_price p * price_multiplier (customer_segment c))))
          \<and> 1 \<le> quantity (txs ! j) \<and> quantity (txs ! j) \<le> 5
          \<and> transaction_date (txs ! j) \<le> readings (wall_clock w) (ticks (wall_clock w) + j)
          \<and> readings (wall_clock w) (ticks (wall_clock w) + j) - transaction_date (txs ! j)
                \<le> 365 * 86400000000"
    using transactions_loop_ok [OF assms(1,2), of ?n 0 w] by blast
  have ids: "map transaction_id txs = [1..n_transactions self]"
  proof (rule nth_equalityI)
    show "length (map transaction_id txs) = length [1..n_transactions self]"
      using len by simp
  next
    fix j assume "j < length (map transaction_id txs)"
    then have j: "j < ?n" using len by simp
    then have "1 + int j \<le> n_transactions self" by linarith
    then have "[1..n_transactions self] ! j = 1 + int j" by (rule nth_upto)
    with rows j len show "map transaction_id txs ! j = [1..n_transactions self] ! j" by simp
  qed
  have refs: "t_customer_id t \<in> customer_id ` set customers
                    \<and> t_product_id t \<in> product_id ` set products" if "t \<in> set txs" for t
  proof -
    from that obtain j where j: "j < ?n" and t: "t = txs ! j"
      using len by (auto simp: in_set_conv_nth)
    with rows obtain c p where "find (\<lambda>x. customer_id x = t_customer_id t) customers = Some c"
       "find (\<lambda>x. product_id x = t_product_id t) products = Some p" by blast
    then have "c \<in> set customers \<and> customer_id c = t_customer_id t"
      "p \<in> set products \<and> product_id p = t_product_id t"
      by (auto dest: find_SomeD)
    then show ?thesis by (metis imageI)
  qed
  show ?thesis
    using run len ids refs assms(3) by (auto simp: generate_transactions_def)
qed

text \<open>
  The concrete run: one row, with id 1, referring to customer 1 and product 1.
\<close>
theorem transactions_count_ids_references_witness:
  "ex_customers \<noteq> [] \<and> ex_products \<noteq> [] \<and> 0 \<le> n_transactions ex_generator
   \<and> generate_transactions ex_generator ex_customers ex_products ex_world
        = Inr (ex_transactions, ex_world_after)
   \<and> int (length ex_transactions) = n_transactions ex_generator
   \<and> map transaction_id ex_transactions = [1..n_transactions ex_generator]
   \<and> t_customer_id (hd ex_transactions) \<in> customer_id ` set ex_customers
   \<and> t_product_id (hd ex_transactions) \<in> product_id ` set ex_products"
  using transactions_count_ids_references [of ex_customers ex_products ex_generator ex_world] ex_run
  by (simp add: ex_customers_def ex_products_def ex_generator_def ex_transactions_def)

subsection \<open>Claim C8: customer ids\<close>

text \<open>
  Claim C8. In every generated customer table, for a customer count \<open>N\<close>, the ids are
  \<open>1, \<dots>, N\<close> in order: each id of \<open>{1..N}\<close> occurs, exactly once, and there are
  \<open>N\<close> rows.
\<close>
theorem customer_ids_contiguous:
  assumes "generate_customers self w = Inr (customers, w')"
  shows "map customer_id customers = [1..n_customers self]
     \<and> distinct (map customer_id customers)
     \<and> set (map customer_id customers) = {1..n_customers self}
     \<and> int (length customers) = n_customers self"
proof -
  have n: "0 \<le> n_customers self"
    using assms generate_customers_negative [of self w] by (cases "0 \<le> n_customers self") auto
  from generate_customers_ok [OF n, of w] assms
  have ids: "map customer_id customers = [1..n_customers self]" by auto
  then have "length (map customer_id customers) = nat (n_customers self)" by simp
  then have "int (length customers) = n_customers self" using n by simp
  with ids show ?thesis by simp
qed

text \<open>
  Two customers drawn from the concrete stream: ids 1 and 2.
\<close>
theorem customer_ids_contiguous_witness:
  "generate_customers \<lparr>n_customers = 2, n_products = 0, n_transactions = 0\<rparr> ex_world =
     Inr ([\<lparr>customer_id = 1, customer_segment = Premium, region = ''South'',
             registration_date = date_2022_01_01, age_group = ''18-25''\<rparr>,
           \<lparr>customer_id = 2, customer_segment = Premium, region = ''North'',
             registration_date = date_2024_12_31, age_group = ''18-25''\<rparr>],
          ex_world\<lparr>np_random := \<lparr>bits = ex_bits, pos = 6, calls =
             [ChoiceCall 3 (Some [0.2, 0.5, 0.3]) 2, ChoiceCall 5 None 2,
              ChoiceCall 5 (Some [0.15, 0.25, 0.25, 0.20, 0.15]) 2]\<rparr>\<rparr>)
   \<and> [1, 2] = [1..n_customers \<lparr>n_customers = 2, n_products = 0, n_transactions = 0\<rparr>]
   \<and> distinct [1, 2 :: int]
   \<and> set [1, 2] = {1..n_customers \<lparr>n_customers = 2, n_products = 0, n_transactions = 0\<rparr>}"
  using customer_ids_contiguous [OF ex_two_customers] ex_two_customers
  by simp

subsection \<open>Claim C9: the profit margin\<close>

text \<open>
  Claim C9. In every generated product row the profit margin is base price minus cost,
  over base price; where the cost exceeds the base price the margin is negative, and
  it is stored as it is.
\<close>
theorem profit_margin_recomputed:
  assumes "generate_products self w = Inr (products, w')" and "p \<in> set products"
  shows "profit_margin p = (base_price p - cost p) / base_price p
     \<and> (base_price p < cost p \<longrightarrow> profit_margin p < 0)"
proof -
  have n: "0 \<le> n_products self"
    using assms(1) generate_products_negative [of self w] by (cases "0 \<le> n_products self") auto
  from generate_products_ok [OF n, of w] assms
  have m: "profit_margin p = (base_price p - cost p) / base_price p" and b: "10 \<le> base_price p"
    by auto
  have "(base_price p - cost p) / base_price p < 0" if "base_price p < cost p"
    using that b by (simp add: divide_neg_pos)
  with m show ?thesis by simp
qed

text \<open>
  A product with base price 10 and cost 152.5: the stored margin is -14.25.
\<close>
theorem profit_margin_recomputed_witness:
  "generate_products \<lparr>n_customers = 0, n_products = 1, n_transactions = 0\<rparr> half_world =
     Inr ([\<lparr>product_id = 1, category = ''Electronics'', base_price = 10, cost = 152.5,
             profit_margin = - 14.25\<rparr>],
          half_world\<lparr>np_random := \<lparr>bits = half_bits, pos = 3, calls =
             [ChoiceCall 6 None 1, UniformCall 10 500 1, UniformCall 5 300 1]\<rparr>\<rparr>)
   \<and> (10 :: real) < 152.5
   \<and> - 14.25 = ((10 :: real) - 152.5) / 10
   \<and> (- 14.25 :: real) < 0"
  using profit_margin_recomputed [OF ex_half_product, of "\<lparr>product_id = 1, category = ''Electronics'',
      base_price = 10, cost = 152.5, profit_margin = - 14.25\<rparr>"] ex_half_product
  by simp

end
